theory Spec2Isabelle
  imports Complex_Main "HOL-Library.Multiset"
begin

section \<open>JavaScript values used by the tree pipeline\<close>

subsection \<open>Numbers\<close>

text \<open>
  A JavaScript \<^verbatim>\<open>number\<close>: a finite value, one of the two infinities, or NaN.
  Finite arithmetic is exact (rational): the rounding of IEEE-754 doubles is not
  modelled, and the sign of zero is not represented. A zero divisor stands for \<open>+0\<close>,
  which is what a sum started from the literal \<open>0\<close> yields (such a sum is never \<open>-0\<close>).
\<close>

datatype number = Finite rat | PlusInfinity | MinusInfinity | NaN

text \<open>The binary \<^verbatim>\<open>+\<close> on numbers.\<close>

fun number_add :: "number \<Rightarrow> number \<Rightarrow> number" where
  "number_add NaN _ = NaN"
| "number_add _ NaN = NaN"
| "number_add (Finite a) (Finite b) = Finite (a + b)"
| "number_add PlusInfinity MinusInfinity = NaN"
| "number_add MinusInfinity PlusInfinity = NaN"
| "number_add PlusInfinity _ = PlusInfinity"
| "number_add _ PlusInfinity = PlusInfinity"
| "number_add MinusInfinity _ = MinusInfinity"
| "number_add _ MinusInfinity = MinusInfinity"

fun number_neg :: "number \<Rightarrow> number" where
  "number_neg (Finite a) = Finite (- a)"
| "number_neg PlusInfinity = MinusInfinity"
| "number_neg MinusInfinity = PlusInfinity"
| "number_neg NaN = NaN"

text \<open>The binary \<^verbatim>\<open>-\<close>: \<open>a - b\<close> is \<open>a + (-b)\<close>, so \<open>Infinity - Infinity\<close> is NaN.\<close>

definition number_sub :: "number \<Rightarrow> number \<Rightarrow> number" where
  "number_sub a b = number_add a (number_neg b)"

text \<open>The sign of an infinite product or quotient with a finite operand.\<close>

definition signed_infinity :: "bool \<Rightarrow> number" where
  "signed_infinity positive = (if positive then PlusInfinity else MinusInfinity)"

text \<open>The binary \<^verbatim>\<open>*\<close>.\<close>

fun number_mul :: "number \<Rightarrow> number \<Rightarrow> number" where
  "number_mul NaN _ = NaN"
| "number_mul _ NaN = NaN"
| "number_mul (Finite a) (Finite b) = Finite (a * b)"
| "number_mul (Finite a) PlusInfinity = (if a = 0 then NaN else signed_infinity (0 < a))"
| "number_mul (Finite a) MinusInfinity = (if a = 0 then NaN else signed_infinity (a < 0))"
| "number_mul PlusInfinity (Finite b) = (if b = 0 then NaN else signed_infinity (0 < b))"
| "number_mul MinusInfinity (Finite b) = (if b = 0 then NaN else signed_infinity (b < 0))"
| "number_mul PlusInfinity PlusInfinity = PlusInfinity"
| "number_mul MinusInfinity MinusInfinity = PlusInfinity"
| "number_mul PlusInfinity MinusInfinity = MinusInfinity"
| "number_mul MinusInfinity PlusInfinity = MinusInfinity"

text \<open>
  The binary \<^verbatim>\<open>/\<close>. A finite non-zero value over zero is an infinity of the
  dividend's sign, zero over zero is NaN, and nothing is raised.
\<close>

fun number_div :: "number \<Rightarrow> number \<Rightarrow> number" where
  "number_div NaN _ = NaN"
| "number_div _ NaN = NaN"
| "number_div (Finite a) (Finite b) =
     (if b = 0 then (if a = 0 then NaN else signed_infinity (0 < a)) else Finite (a / b))"
| "number_div (Finite a) PlusInfinity = Finite 0"
| "number_div (Finite a) MinusInfinity = Finite 0"
| "number_div PlusInfinity (Finite b) = signed_infinity (0 \<le> b)"
| "number_div MinusInfinity (Finite b) = signed_infinity (b < 0)"
| "number_div PlusInfinity _ = NaN"
| "number_div MinusInfinity _ = NaN"

text \<open>
  \<^verbatim>\<open>Math.round\<close>: the nearest integer, a tie going towards \<open>+\<infinity>\<close>; the infinities
  and NaN are returned as they are.
\<close>

fun Math_round :: "number \<Rightarrow> number" where
  "Math_round (Finite a) = Finite (of_int \<lfloor>a + 1 / 2\<rfloor>)"
| "Math_round x = x"

text \<open>The comparison \<^verbatim>\<open>a > b\<close>: false as soon as an operand is NaN.\<close>

fun number_gt :: "number \<Rightarrow> number \<Rightarrow> bool" where
  "number_gt NaN _ = False"
| "number_gt _ NaN = False"
| "number_gt (Finite a) (Finite b) = (b < a)"
| "number_gt PlusInfinity PlusInfinity = False"
| "number_gt PlusInfinity _ = True"
| "number_gt _ PlusInfinity = False"
| "number_gt MinusInfinity _ = False"
| "number_gt _ MinusInfinity = True"

text \<open>\<^verbatim>\<open>Math.min\<close> and \<^verbatim>\<open>Math.max\<close> of two numbers: NaN if an operand is NaN.\<close>

definition Math_min :: "number \<Rightarrow> number \<Rightarrow> number" where
  "Math_min a b = (if a = NaN \<or> b = NaN then NaN else if number_gt a b then b else a)"

definition Math_max :: "number \<Rightarrow> number \<Rightarrow> number" where
  "Math_max a b = (if a = NaN \<or> b = NaN then NaN else if number_gt b a then b else a)"

definition number_of_int :: "int \<Rightarrow> number" where
  "number_of_int i = Finite (of_int i)"

definition number_of_nat :: "nat \<Rightarrow> number" where
  "number_of_nat n = Finite (of_nat n)"

subsection \<open>Objects with string keys\<close>

text \<open>
  A \<^verbatim>\<open>Record<string, V>\<close> is the list of its own properties in the order of their
  creation. Assigning to a key that exists replaces the value where it stands; a new
  key is created last.
\<close>

type_synonym 'v Record = "(string \<times> 'v) list"

fun obj_set :: "'v Record \<Rightarrow> string \<Rightarrow> 'v \<Rightarrow> 'v Record" where
  "obj_set [] k v = [(k, v)]"
| "obj_set ((k', v') # r) k v =
     (if k' = k then (k, v) # r else (k', v') # obj_set r k v)"

text \<open>
  \<^verbatim>\<open>obj[k]\<close>: \<open>None\<close> stands for \<^verbatim>\<open>undefined\<close>. Only own properties are modelled: a
  key that names a property inherited from \<^verbatim>\<open>Object.prototype\<close> (such as
  \<^verbatim>\<open>constructor\<close>) is outside the model.
\<close>

definition obj_get :: "'v Record \<Rightarrow> string \<Rightarrow> 'v option" where
  "obj_get r k = map_of r k"

text \<open>Reading a numeric property inside arithmetic: \<^verbatim>\<open>undefined\<close> becomes NaN.\<close>

definition prop_number :: "number Record \<Rightarrow> string \<Rightarrow> number" where
  "prop_number r k = (case obj_get r k of Some v \<Rightarrow> v | None \<Rightarrow> NaN)"

text \<open>
  The enumeration order of own properties (ECMAScript, OrdinaryOwnPropertyKeys), which
  \<^verbatim>\<open>Object.keys\<close>, \<^verbatim>\<open>Object.entries\<close> and \<^verbatim>\<open>for ... of Object.entries\<close> follow:
  first the keys that are array indices (canonical decimal strings below \<open>2^32 - 1\<close>)
  in ascending numeric order, then every other string key in creation order.
\<close>

definition is_digit :: "char \<Rightarrow> bool" where
  "is_digit c = (c \<in> set ''0123456789'')"

definition dec_value :: "string \<Rightarrow> int" where
  "dec_value s = foldl (\<lambda>n c. 10 * n + (of_char c - 48)) 0 s"

definition array_index :: "string \<Rightarrow> int option" where
  "array_index s =
     (if s \<noteq> [] \<and> list_all is_digit s \<and> (s = ''0'' \<or> hd s \<noteq> CHR ''0'')
         \<and> dec_value s < 4294967295
      then Some (dec_value s) else None)"

definition index_rank :: "string \<times> 'v \<Rightarrow> int" where
  "index_rank p = (case array_index (fst p) of Some i \<Rightarrow> i | None \<Rightarrow> 0)"

definition Object_entries :: "'v Record \<Rightarrow> (string \<times> 'v) list" where
  "Object_entries r =
     sort_key index_rank (filter (\<lambda>p. array_index (fst p) \<noteq> None) r)
       @ filter (\<lambda>p. array_index (fst p) = None) r"

definition Object_keys :: "'v Record \<Rightarrow> string list" where
  "Object_keys r = map fst (Object_entries r)"

subsection \<open>Sorting with a comparator\<close>

text \<open>
  \<^verbatim>\<open>Array.prototype.sort(cmp)\<close> is stable, and a NaN from the comparator counts as
  \<open>+0\<close>. It is modelled by a stable insertion sort: an element moves behind a later one
  only when the comparator is strictly positive on the pair. For a consistent
  comparator every stable sort gives this list; for an inconsistent one ECMAScript
  leaves the order to the implementation, and nothing below depends on it.
\<close>

fun js_insert :: "('a \<Rightarrow> 'a \<Rightarrow> number) \<Rightarrow> 'a \<Rightarrow> 'a list \<Rightarrow> 'a list" where
  "js_insert cmp x [] = [x]"
| "js_insert cmp x (y # ys) =
     (if number_gt (cmp x y) (Finite 0) then y # js_insert cmp x ys else x # y # ys)"

definition js_sort :: "('a \<Rightarrow> 'a \<Rightarrow> number) \<Rightarrow> 'a list \<Rightarrow> 'a list" where
  "js_sort cmp xs = foldr (js_insert cmp) xs []"

section \<open>The node shape\<close>

record Author =
  author :: string
  contribution :: number

record Commit =
  hash :: string
  message :: string
  date :: string

record RawCommit =
  hash :: string
  message :: string
  time :: int
  author :: string

text \<open>The field \<^verbatim>\<open>commits?: string[] | Commit[]\<close>.\<close>

datatype Commits = Hashes "string list" | Enriched "Commit list"

text \<open>
  \<^verbatim>\<open>interface TreeNode\<close>: an optional field is an \<open>option\<close>, \<open>None\<close> when the object
  has no such property. The epoch fields and a raw commit's \<open>time\<close> are integers (unix
  seconds).
\<close>

datatype TreeNode = TreeNode
  (type: string)
  (authors: "number Record option")
  (children: "TreeNode list option")
  (lastChangeEpoch: "int option")
  (lastChangeEpochFormatted: "string option")
  (commits: "Commits option")
  (singleAuthor: "bool option")
  (topContributor: "string option")

text \<open>Every node of a tree, parents before children, children in their order.\<close>

fun nodes :: "TreeNode \<Rightarrow> TreeNode list" where
  "nodes (TreeNode ty au ch lce lcf co sa tc) =
     TreeNode ty au ch lce lcf co sa tc #
       (case ch of None \<Rightarrow> [] | Some cs \<Rightarrow> concat (map nodes cs))"

section \<open>updateAuthorValues\<close>

definition totalSum :: "number Record \<Rightarrow> number" where
  "totalSum au =
     foldl (\<lambda>sum key. number_add sum (prop_number au key)) (Finite 0) (Object_keys au)"

definition percentage :: "number Record \<Rightarrow> string \<Rightarrow> number" where
  "percentage au key =
     (let proportion = number_div (prop_number au key) (totalSum au)
      in Math_round (number_mul proportion (Finite 100)))"

definition authorsWithPercentage :: "number Record \<Rightarrow> Author list" where
  "authorsWithPercentage au =
     map (\<lambda>key. \<lparr>Author.author = key, contribution = percentage au key\<rparr>) (Object_keys au)"

definition sortedAuthors :: "number Record \<Rightarrow> number Record" where
  "sortedAuthors au =
     foldl (\<lambda>obj authorObj. obj_set obj (Author.author authorObj) (contribution authorObj)) []
       (js_sort (\<lambda>a b. number_sub (contribution b) (contribution a))
          (authorsWithPercentage au))"

fun updateAuthorValues :: "TreeNode \<Rightarrow> TreeNode" where
  "updateAuthorValues (TreeNode ty au ch lce lcf co sa tc) =
     TreeNode ty
       (case au of Some a \<Rightarrow> Some (sortedAuthors a) | None \<Rightarrow> None)
       (case ch of Some cs \<Rightarrow> Some (map updateAuthorValues cs) | None \<Rightarrow> None)
       lce lcf co sa tc"

section \<open>Dates\<close>

text \<open>
  A \<^verbatim>\<open>Date\<close> is its time value in milliseconds. The getters \<^verbatim>\<open>getDate\<close>,
  \<^verbatim>\<open>getMonth\<close> and \<^verbatim>\<open>getFullYear\<close> read the host's local time, so the host's calendar
  is a parameter of everything that formats a date.
\<close>

type_synonym Date = int

record Calendar =
  getDate :: "Date \<Rightarrow> nat"
  getMonth :: "Date \<Rightarrow> nat"
  getFullYear :: "Date \<Rightarrow> int"

definition convertUnixTimeToDate :: "int \<Rightarrow> Date" where
  "convertUnixTimeToDate unixTime = unixTime * 1000"

text \<open>The decimal text of a number inside a template string.\<close>

fun digits :: "nat \<Rightarrow> string" where
  "digits n =
     (if n < 10 then [''0123456789'' ! n]
      else digits (n div 10) @ [''0123456789'' ! (n mod 10)])"

definition show_int :: "int \<Rightarrow> string" where
  "show_int i = (if i < 0 then CHR ''-'' # digits (nat (- i)) else digits (nat i))"

definition monthNames :: "string list" where
  "monthNames =
     [''Ene'', ''Feb'', ''Mar'', ''Abr'', ''May'', ''Jun'',
      ''Jul'', ''Ago'', ''Sep'', ''Oct'', ''Nov'', ''Dic'']"

definition formatDate :: "Calendar \<Rightarrow> Date \<Rightarrow> string" where
  "formatDate cal d =
     (let day = getDate cal d;
          monthIndex = getMonth cal d;
          year = getFullYear cal d;
          monthAbbr = (if monthIndex < length monthNames then monthNames ! monthIndex
                       else ''undefined'')
      in digits day @ '' '' @ monthAbbr @ '' '' @ show_int year)"

text \<open>
  The calendar of a host whose time zone is UTC: the proleptic Gregorian date of a time
  value, by the usual days-to-civil conversion (eras of 400 years starting in March).
\<close>

definition utc_civil :: "Date \<Rightarrow> int \<times> int \<times> int" where
  "utc_civil d =
     (let z = d div 86400000 + 719468;
          era = z div 146097;
          doe = z mod 146097;
          yoe = (doe - doe div 1460 + doe div 36524 - doe div 146096) div 365;
          doy = doe - (365 * yoe + yoe div 4 - yoe div 100);
          mp = (5 * doy + 2) div 153;
          dayOfMonth = doy - (153 * mp + 2) div 5 + 1;
          month = (if mp < 10 then mp + 3 else mp - 9);
          year = yoe + era * 400 + (if month \<le> 2 then 1 else 0)
      in (year, month, dayOfMonth))"

definition utc_calendar :: Calendar where
  "utc_calendar =
     \<lparr>getDate = (\<lambda>d. nat (snd (snd (utc_civil d)))),
      getMonth = (\<lambda>d. nat (fst (snd (utc_civil d)) - 1)),
      getFullYear = (\<lambda>d. fst (utc_civil d))\<rparr>"

section \<open>updateLastChangeDate and updateCommits\<close>

text \<open>
  Both walks dereference \<^verbatim>\<open>jsonObj.children!\<close> on every node of type \<^verbatim>\<open>'tree'\<close>:
  calling \<^verbatim>\<open>forEach\<close> on \<^verbatim>\<open>undefined\<close> throws a TypeError, which ends the walk.
\<close>

datatype error = TypeError

fun updateLastChangeDate :: "Calendar \<Rightarrow> TreeNode \<Rightarrow> error + TreeNode"
  and updateLastChangeDate_forEach :: "Calendar \<Rightarrow> TreeNode list \<Rightarrow> error + TreeNode list"
  where
  "updateLastChangeDate cal (TreeNode ty au ch lce lcf co sa tc) =
     (case (ty = ''blob'', lce) of
        (True, Some epoch) \<Rightarrow>
          Inr (TreeNode ty au ch lce
                 (Some (formatDate cal (convertUnixTimeToDate epoch))) co sa tc)
      | _ \<Rightarrow>
          if ty = ''tree'' then
            (case ch of
               None \<Rightarrow> Inl TypeError
             | Some cs \<Rightarrow>
                 (case updateLastChangeDate_forEach cal cs of
                    Inl e \<Rightarrow> Inl e
                  | Inr cs' \<Rightarrow> Inr (TreeNode ty au (Some cs') lce lcf co sa tc)))
          else Inr (TreeNode ty au ch lce lcf co sa tc))"
| "updateLastChangeDate_forEach cal [] = Inr []"
| "updateLastChangeDate_forEach cal (child # rest) =
     (case updateLastChangeDate cal child of
        Inl e \<Rightarrow> Inl e
      | Inr child' \<Rightarrow>
          (case updateLastChangeDate_forEach cal rest of
             Inl e \<Rightarrow> Inl e
           | Inr rest' \<Rightarrow> Inr (child' # rest')))"

text \<open>
  The property keys that \<^verbatim>\<open>commitsJson[commitHash as string]\<close> reads. A hash string is
  its own key. The cast is erased at run time: an element that is a \<^verbatim>\<open>Commit\<close> object is
  converted by \<^verbatim>\<open>Object.prototype.toString\<close>, so its key is \<^verbatim>\<open>[object Object]\<close>.
\<close>

definition commit_keys :: "Commits \<Rightarrow> string list" where
  "commit_keys c =
     (case c of Hashes hs \<Rightarrow> hs | Enriched cs \<Rightarrow> map (\<lambda>_. ''[object Object]'') cs)"

text \<open>\<^verbatim>\<open>.filter((commit) => commit !== undefined)\<close>\<close>

fun filter_defined :: "'a option list \<Rightarrow> 'a list" where
  "filter_defined [] = []"
| "filter_defined (None # xs) = filter_defined xs"
| "filter_defined (Some x # xs) = x # filter_defined xs"

definition commitList :: "RawCommit Record \<Rightarrow> Commits \<Rightarrow> RawCommit list" where
  "commitList commitsJson c =
     filter_defined (map (\<lambda>commitHash. obj_get commitsJson commitHash) (commit_keys c))"

definition sortedCommitList :: "RawCommit Record \<Rightarrow> Commits \<Rightarrow> RawCommit list" where
  "sortedCommitList commitsJson c =
     js_sort (\<lambda>a b. number_sub (number_of_int (time b)) (number_of_int (time a)))
       (commitList commitsJson c)"

definition enrich :: "Calendar \<Rightarrow> RawCommit \<Rightarrow> Commit" where
  "enrich cal commit =
     \<lparr>Commit.hash = RawCommit.hash commit,
      Commit.message = RawCommit.message commit,
      date = formatDate cal (convertUnixTimeToDate (time commit))\<rparr>"

definition updatedCommits :: "Calendar \<Rightarrow> RawCommit Record \<Rightarrow> Commits \<Rightarrow> Commit list" where
  "updatedCommits cal commitsJson c = map (enrich cal) (sortedCommitList commitsJson c)"

fun updateCommits :: "Calendar \<Rightarrow> TreeNode \<Rightarrow> RawCommit Record \<Rightarrow> error + TreeNode"
  and updateCommits_forEach ::
    "Calendar \<Rightarrow> TreeNode list \<Rightarrow> RawCommit Record \<Rightarrow> error + TreeNode list"
  where
  "updateCommits cal (TreeNode ty au ch lce lcf co sa tc) commitsJson =
     (case (ty = ''blob'', co) of
        (True, Some c) \<Rightarrow>
          Inr (TreeNode ty au ch lce lcf
                 (Some (Enriched (updatedCommits cal commitsJson c))) sa tc)
      | _ \<Rightarrow>
          if ty = ''tree'' then
            (case ch of
               None \<Rightarrow> Inl TypeError
             | Some cs \<Rightarrow>
                 (case updateCommits_forEach cal cs commitsJson of
                    Inl e \<Rightarrow> Inl e
                  | Inr cs' \<Rightarrow> Inr (TreeNode ty au (Some cs') lce lcf co sa tc)))
          else Inr (TreeNode ty au ch lce lcf co sa tc))"
| "updateCommits_forEach cal [] commitsJson = Inr []"
| "updateCommits_forEach cal (child # rest) commitsJson =
     (case updateCommits cal child commitsJson of
        Inl e \<Rightarrow> Inl e
      | Inr child' \<Rightarrow>
          (case updateCommits_forEach cal rest commitsJson of
             Inl e \<Rightarrow> Inl e
           | Inr rest' \<Rightarrow> Inr (child' # rest')))"

definition updateRepositoryCommits ::
    "Calendar \<Rightarrow> TreeNode \<Rightarrow> RawCommit Record \<Rightarrow> error + TreeNode" where
  "updateRepositoryCommits cal repositoryJson commitsJson =
     updateCommits cal repositoryJson commitsJson"

section \<open>addMetrics, addSingleAuthor, addTopContributor\<close>

text \<open>
  The scan of \<^verbatim>\<open>addTopContributor\<close>: the running pair of \<^verbatim>\<open>maxContributions\<close> and
  \<^verbatim>\<open>topContributor\<close> starts at -1 and the empty string, and is replaced by an entry
  whose contribution is strictly greater.
\<close>

definition scanTopContributor :: "(string \<times> number) list \<Rightarrow> number \<times> string" where
  "scanTopContributor entries =
     foldl (\<lambda>(maxContributions, top) (authorName, value).
              if number_gt value maxContributions then (value, authorName)
              else (maxContributions, top))
       (Finite (- 1), []) entries"

definition findTopContributor :: "number Record option \<Rightarrow> string" where
  "findTopContributor au =
     (case au of
        Some a \<Rightarrow> snd (scanTopContributor (Object_entries a))
      | None \<Rightarrow> [])"

fun addTopContributor :: "TreeNode \<Rightarrow> TreeNode" where
  "addTopContributor (TreeNode ty au ch lce lcf co sa tc) =
     TreeNode ty au
       (case ch of
          Some cs \<Rightarrow> if 0 < length cs then Some (map addTopContributor cs) else Some cs
        | None \<Rightarrow> None)
       lce lcf co sa
       (if ty = ''blob'' then Some (findTopContributor au) else tc)"

fun addMetrics :: "TreeNode \<Rightarrow> TreeNode"
  and addSingleAuthor :: "TreeNode \<Rightarrow> TreeNode" where
  "addMetrics jsonData = addTopContributor (addSingleAuthor jsonData)"
| "addSingleAuthor (TreeNode ty au ch lce lcf co sa tc) =
     TreeNode ty au
       (case ch of
          Some cs \<Rightarrow> if 0 < length cs then Some (map addMetrics cs) else Some cs
        | None \<Rightarrow> None)
       lce lcf co
       (if ty = ''blob''
        then Some (length (Object_keys (case au of Some a \<Rightarrow> a | None \<Rightarrow> [])) = 1)
        else sa)
       tc"

section \<open>The aggregate reductions\<close>

definition commits_length :: "Commits \<Rightarrow> nat" where
  "commits_length c = (case c of Hashes hs \<Rightarrow> length hs | Enriched cs \<Rightarrow> length cs)"

fun getMinCommits :: "TreeNode \<Rightarrow> number" where
  "getMinCommits (TreeNode ty au ch lce lcf co sa tc) =
     (let minCommits = PlusInfinity;
          minCommits =
            (case (ty = ''blob'', co) of
               (True, Some c) \<Rightarrow> Math_min minCommits (number_of_nat (commits_length c))
             | _ \<Rightarrow> minCommits);
          minCommits =
            (case ch of
               Some cs \<Rightarrow>
                 foldl (\<lambda>minCommits child. Math_min minCommits (getMinCommits child))
                   minCommits cs
             | None \<Rightarrow> minCommits)
      in if minCommits = PlusInfinity then Finite 0 else minCommits)"

fun getMaxCommits :: "TreeNode \<Rightarrow> number" where
  "getMaxCommits (TreeNode ty au ch lce lcf co sa tc) =
     (let maxCommits = Finite 0;
          maxCommits =
            (case (ty = ''blob'', co) of
               (True, Some c) \<Rightarrow> Math_max maxCommits (number_of_nat (commits_length c))
             | _ \<Rightarrow> maxCommits);
          maxCommits =
            (case ch of
               Some cs \<Rightarrow>
                 foldl (\<lambda>maxCommits child. Math_max maxCommits (getMaxCommits child))
                   maxCommits cs
             | None \<Rightarrow> maxCommits)
      in maxCommits)"

fun getFirstChangeEpoch :: "TreeNode \<Rightarrow> number" where
  "getFirstChangeEpoch (TreeNode ty au ch lce lcf co sa tc) =
     (let firstChange = PlusInfinity;
          firstChange =
            (case (ty = ''blob'', lce) of
               (True, Some epoch) \<Rightarrow> Math_min firstChange (number_of_int epoch)
             | _ \<Rightarrow> firstChange);
          firstChange =
            (case ch of
               Some cs \<Rightarrow>
                 foldl (\<lambda>firstChange child. Math_min firstChange (getFirstChangeEpoch child))
                   firstChange cs
             | None \<Rightarrow> firstChange)
      in if firstChange = PlusInfinity then Finite 0 else firstChange)"

fun getLastChangeEpoch :: "TreeNode \<Rightarrow> number" where
  "getLastChangeEpoch (TreeNode ty au ch lce lcf co sa tc) =
     (let lastChange = Finite 0;
          lastChange =
            (case (ty = ''blob'', lce) of
               (True, Some epoch) \<Rightarrow> Math_max lastChange (number_of_int epoch)
             | _ \<Rightarrow> lastChange);
          lastChange =
            (case ch of
               Some cs \<Rightarrow>
                 foldl (\<lambda>lastChange child. Math_max lastChange (getLastChangeEpoch child))
                   lastChange cs
             | None \<Rightarrow> lastChange)
      in lastChange)"

section \<open>calculateComplexityMetric\<close>






section \<open>Notions of the spec\<close>

subsection \<open>The normalisation in the spec's words\<close>







subsection \<open>The nodes a walk over tree nodes reaches\<close>

text \<open>
  \<open>updateLastChangeDate\<close> and \<open>updateCommits\<close> descend into the children of a node only
  when its type is \<^verbatim>\<open>'tree'\<close>: these are the nodes they reach.
\<close>

fun tree_walk :: "TreeNode \<Rightarrow> TreeNode list" where
  "tree_walk (TreeNode ty au ch lce lcf co sa tc) =
     TreeNode ty au ch lce lcf co sa tc #
       (if ty = ''tree''
        then (case ch of None \<Rightarrow> [] | Some cs \<Rightarrow> concat (map tree_walk cs))
        else [])"

subsection \<open>What the aggregate reductions read\<close>

text \<open>
  The commit counts of the blobs of a tree that carry a \<open>commits\<close> field, and the
  change epochs of the blobs that carry a \<open>lastChangeEpoch\<close>, in node order.
\<close>

definition commitCount :: "TreeNode \<Rightarrow> nat list" where
  "commitCount n =
     (case (type n = ''blob'', commits n) of
        (True, Some c) \<Rightarrow> [commits_length c]
      | _ \<Rightarrow> [])"

definition commitCounts :: "TreeNode \<Rightarrow> nat list" where
  "commitCounts t = concat (map commitCount (nodes t))"

definition changeEpoch :: "TreeNode \<Rightarrow> int list" where
  "changeEpoch n =
     (case (type n = ''blob'', lastChangeEpoch n) of
        (True, Some epoch) \<Rightarrow> [epoch]
      | _ \<Rightarrow> [])"

definition changeEpochs :: "TreeNode \<Rightarrow> int list" where
  "changeEpochs t = concat (map changeEpoch (nodes t))"

subsection \<open>The complexity credits in the spec's words\<close>







section \<open>Example inputs\<close>

text \<open>The blob and the tree of the spec's worked example.\<close>

definition example_blob :: TreeNode where
  "example_blob =
     TreeNode ''blob'' (Some [(''A'', Finite 3), (''B'', Finite 1)]) None
       (Some 1700000000) None (Some (Hashes [''h1'', ''h2''])) None None"

definition example_tree :: TreeNode where
  "example_tree = TreeNode ''tree'' None (Some [example_blob]) None None None None None"


text \<open>The commit dictionary of the spec's worked example.\<close>

definition example_commitsJson :: "RawCommit Record" where
  "example_commitsJson =
     [(''h1'', \<lparr>RawCommit.hash = ''h1'', RawCommit.message = ''m1'', time = 1700000000,
               RawCommit.author = ''A''\<rparr>),
      (''h2'', \<lparr>RawCommit.hash = ''h2'', RawCommit.message = ''m2'', time = 1690000000,
               RawCommit.author = ''B''\<rparr>)]"

text \<open>
  A directory that holds an empty directory and one blob with two commits, and a blob
  last changed one day before the epoch.
\<close>

definition tree_with_empty_directory :: TreeNode where
  "tree_with_empty_directory =
     TreeNode ''tree'' None
       (Some [TreeNode ''tree'' None (Some []) None None None None None,
              TreeNode ''blob'' None None None None (Some (Hashes [''h1'', ''h2''])) None None])
       None None None None None"

definition blob_before_epoch :: TreeNode where
  "blob_before_epoch = TreeNode ''blob'' None None (Some (- 86400)) None None None None"


section \<open>Properties of the normaliser\<close>



lemma js_insert_insort:
  fixes g :: "'a \<Rightarrow> int"
  assumes "f x = Finite (of_int (g x))" and "\<forall>y\<in>set ys. f y = Finite (of_int (g y))"
  shows "js_insert (\<lambda>a b. number_sub (f b) (f a)) x ys = insort_key (\<lambda>x. - g x) x ys"
  using assms by (induction ys) (auto simp: number_sub_def)

lemma js_sort_sort_key:
  fixes g :: "'a \<Rightarrow> int"
  assumes "\<forall>x\<in>set xs. f x = Finite (of_int (g x))"
  shows "js_sort (\<lambda>a b. number_sub (f b) (f a)) xs = sort_key (\<lambda>x. - g x) xs"
  using assms
proof (induction xs)
  case Nil
  then show ?case by (simp add: js_sort_def)
next
  case (Cons x xs)
  then have "js_sort (\<lambda>a b. number_sub (f b) (f a)) xs = sort_key (\<lambda>x. - g x) xs" by simp
  moreover have "\<forall>y\<in>set (sort_key (\<lambda>x. - g x) xs). f y = Finite (of_int (g y))"
    using Cons.prems by simp
  ultimately show ?case using Cons.prems
    by (simp add: js_sort_def js_insert_insort)
qed






lemma mset_Object_entries: "mset (Object_entries r) = mset r"
  by (simp add: Object_entries_def) 


lemma mset_Object_keys: "mset (Object_keys r) = mset (map fst r)"
  by (metis Object_keys_def mset_Object_entries mset_map)





















section \<open>Properties of the commit enricher\<close>


lemma sortedCommitList_sort_key:
  "sortedCommitList commitsJson c = sort_key (\<lambda>x. - time x) (commitList commitsJson c)"
  unfolding sortedCommitList_def
  by (rule js_sort_sort_key) (simp add: number_of_int_def)

lemma sortedCommitList_properties:
  shows "mset (sortedCommitList commitsJson c) = mset (commitList commitsJson c)"
    and "sorted_wrt (\<lambda>a b. time b \<le> time a) (sortedCommitList commitsJson c)"
    and "filter (\<lambda>x. time x = t) (sortedCommitList commitsJson c)
           = filter (\<lambda>x. time x = t) (commitList commitsJson c)"
proof -
  let ?xs = "commitList commitsJson c"
  show "mset (sortedCommitList commitsJson c) = mset ?xs"
    by (simp add: sortedCommitList_sort_key)
  have "sorted (map (\<lambda>x. - time x) (sort_key (\<lambda>x. - time x) ?xs))"
    by (rule sorted_sort_key)
  then show "sorted_wrt (\<lambda>a b. time b \<le> time a) (sortedCommitList commitsJson c)"
    by (simp add: sortedCommitList_sort_key sorted_wrt_map)
  have "\<And>x. (time x = t) = (- time x = - t)" by simp
  then show "filter (\<lambda>x. time x = t) (sortedCommitList commitsJson c)
           = filter (\<lambda>x. time x = t) ?xs"
    using sort_key_stable[of "\<lambda>x. - time x" "- t" ?xs]
    by (simp add: sortedCommitList_sort_key)
qed



lemma updateCommits_example:
  "updateCommits cal example_blob
     ((''h0'', \<lparr>RawCommit.hash = ''h0'', RawCommit.message = ''m0'', time = 1690000000,
               RawCommit.author = ''C''\<rparr>) # example_commitsJson)
   = Inr (TreeNode ''blob'' (Some [(''A'', Finite 3), (''B'', Finite 1)]) None
            (Some 1700000000) None
            (Some (Enriched
               [\<lparr>Commit.hash = ''h1'', Commit.message = ''m1'',
                  date = formatDate cal (convertUnixTimeToDate 1700000000)\<rparr>,
                \<lparr>Commit.hash = ''h2'', Commit.message = ''m2'',
                  date = formatDate cal (convertUnixTimeToDate 1690000000)\<rparr>]))
            None None)"
  by (simp add: example_blob_def example_commitsJson_def updatedCommits_def
      sortedCommitList_def commitList_def commit_keys_def obj_get_def js_sort_def
      number_sub_def number_of_int_def enrich_def)

section \<open>Running the commit enricher twice\<close>

lemma utc_civil_example: "utc_civil (convertUnixTimeToDate 1700000000) = (2023, 11, 14)"
  by code_simp

lemma formatDate_example:
  "formatDate utc_calendar (convertUnixTimeToDate 1700000000) = ''14 Nov 2023''"
  by (simp add: formatDate_def utc_calendar_def utc_civil_example monthNames_def show_int_def)

lemma commitList_Enriched:
  assumes "obj_get commitsJson ''[object Object]'' = None"
  shows "commitList commitsJson (Enriched cs) = []"
  using assms by (induction cs) (simp_all add: commitList_def commit_keys_def)

lemma updatedCommits_Enriched:
  assumes "obj_get commitsJson ''[object Object]'' = None"
  shows "updatedCommits cal commitsJson (Enriched cs) = []"
  by (simp add: updatedCommits_def sortedCommitList_def commitList_Enriched[OF assms] js_sort_def)

lemma updateCommits_enriched_blob:
  assumes "type b = ''blob''" and "commits b = Some (Enriched cs)"
    and "obj_get commitsJson ''[object Object]'' = None"
  shows "updateCommits cal b commitsJson
           = Inr (TreeNode (type b) (authors b) (children b) (lastChangeEpoch b)
                    (lastChangeEpochFormatted b) (Some (Enriched []))
                    (singleAuthor b) (topContributor b))"
  using assms by (cases b) (simp add: updatedCommits_Enriched)

lemma filter_defined_empty_iff:
  "filter_defined (map f hs) = [] \<longleftrightarrow> (\<forall>h\<in>set hs. f h = None)"
proof (induction hs)
  case Nil
  then show ?case by simp
next
  case (Cons h hs)
  then show ?case by (cases "f h") simp_all
qed

text \<open>
  Claim C5, as amended. A second run of \<open>updateCommits\<close> on a blob does not fail. The
  first run on a blob with hash strings returns a blob \<open>b1\<close> with enriched records; the
  second run reads every record under the key \<^verbatim>\<open>[object Object]\<close>, and with a dictionary
  that has no such key it returns a blob \<open>b2\<close> whose \<open>commits\<close> is the empty list. So the
  operation is not idempotent: \<open>b2\<close> differs from \<open>b1\<close> unless every hash was missing
  from the dictionary.
\<close>

theorem updateCommits_second_run:
  assumes "type b = ''blob''" and "commits b = Some (Hashes hs)"
    and "obj_get commitsJson ''[object Object]'' = None"
  shows "\<exists>b1 b2. updateCommits cal b commitsJson = Inr b1
           \<and> updateCommits cal b1 commitsJson = Inr b2
           \<and> commits b2 = Some (Enriched [])
           \<and> (b2 = b1 \<longleftrightarrow> (\<forall>h\<in>set hs. obj_get commitsJson h = None))"
proof -
  let ?cs = "updatedCommits cal commitsJson (Hashes hs)"
  let ?b1 = "TreeNode (type b) (authors b) (children b) (lastChangeEpoch b)
               (lastChangeEpochFormatted b) (Some (Enriched ?cs))
               (singleAuthor b) (topContributor b)"
  let ?b2 = "TreeNode (type b) (authors b) (children b) (lastChangeEpoch b)
               (lastChangeEpochFormatted b) (Some (Enriched []))
               (singleAuthor b) (topContributor b)"
  have r1: "updateCommits cal b commitsJson = Inr ?b1"
    using assms(1,2) by (cases b) simp
  have r2: "updateCommits cal ?b1 commitsJson = Inr ?b2"
    using updateCommits_enriched_blob[of ?b1 ?cs commitsJson cal] assms(1,3) by simp
  have "length ?cs = length (filter_defined (map (obj_get commitsJson) hs))"
    using sortedCommitList_properties(1)[of commitsJson "Hashes hs", THEN mset_eq_length]
    by (simp add: updatedCommits_def commitList_def commit_keys_def)
  then have "?cs = [] \<longleftrightarrow> (\<forall>h\<in>set hs. obj_get commitsJson h = None)"
    using filter_defined_empty_iff[of "obj_get commitsJson" hs] by (metis length_0_conv)
  then have "?b2 = ?b1 \<longleftrightarrow> (\<forall>h\<in>set hs. obj_get commitsJson h = None)"
    by auto
  with r1 r2 show ?thesis
    by (metis TreeNode.sel(6))
qed

text \<open>
  The spec's example, on a host in UTC: the second run returns, without an error, the
  blob with no commits; the first run had kept two.
\<close>

theorem updateCommits_second_run_witness:
  "\<exists>b1 b2. updateCommits utc_calendar example_blob example_commitsJson = Inr b1
     \<and> updateCommits utc_calendar b1 example_commitsJson = Inr b2
     \<and> commits b2 = Some (Enriched []) \<and> b2 \<noteq> b1"
proof -
  have h1: "type example_blob = ''blob''" by (simp add: example_blob_def)
  have h2: "commits example_blob = Some (Hashes [''h1'', ''h2''])" by (simp add: example_blob_def)
  have h3: "obj_get example_commitsJson ''[object Object]'' = None"
    by (simp add: example_commitsJson_def obj_get_def)
  have h4: "\<not> (\<forall>h\<in>set [''h1'', ''h2'']. obj_get example_commitsJson h = None)"
    by (simp add: example_commitsJson_def obj_get_def)
  from updateCommits_second_run[OF h1 h2 h3, of utc_calendar] h4
  show ?thesis by blast
qed

theorem updateCommits_second_run_counterexample:
  "updateCommits utc_calendar
     (TreeNode ''blob'' None None None None
        (Some (Enriched [\<lparr>Commit.hash = ''h1'', Commit.message = ''m1'',
                          date = ''14 Nov 2023''\<rparr>])) None None)
     example_commitsJson
   = Inr (TreeNode ''blob'' None None None None (Some (Enriched [])) None None)"
  by (simp add: updatedCommits_def sortedCommitList_def commitList_def commit_keys_def
      example_commitsJson_def obj_get_def js_sort_def)

section \<open>Properties of the metrics annotator\<close>

declare addMetrics.simps [simp del]

lemma children_forLoop:
  "(case ch of Some cs \<Rightarrow> if 0 < length cs then Some (map f cs) else Some cs | None \<Rightarrow> None)
     = map_option (map f) ch"
  by (cases ch) auto

lemma addTopContributor_unfold:
  "addTopContributor (TreeNode ty au ch lce lcf co sa tc) =
     TreeNode ty au (map_option (map addTopContributor) ch) lce lcf co sa
       (if ty = ''blob'' then Some (findTopContributor au) else tc)"
  by (simp add: children_forLoop)

lemma addSingleAuthor_unfold:
  "addSingleAuthor (TreeNode ty au ch lce lcf co sa tc) =
     TreeNode ty au (map_option (map addMetrics) ch) lce lcf co
       (if ty = ''blob''
        then Some (length (Object_keys (case au of Some a \<Rightarrow> a | None \<Rightarrow> [])) = 1)
        else sa)
       tc"
  by (simp only: addSingleAuthor.simps children_forLoop)

lemma concat_map_nodes:
  assumes "\<And>c. c \<in> set cs \<Longrightarrow> nodes (f c) = map g (nodes c)"
  shows "concat (map nodes (map f cs)) = map g (concat (map nodes cs))"
  using assms by (induction cs) simp_all

lemma addTopContributor_idem: "addTopContributor (addTopContributor t) = addTopContributor t"
proof (induction t)
  case (TreeNode ty au ch lce lcf co sa tc)
  have "map_option (map addTopContributor) (map_option (map addTopContributor) ch)
          = map_option (map addTopContributor) ch"
  proof (cases ch)
    case None
    then show ?thesis by simp
  next
    case (Some cs)
    have "map (addTopContributor \<circ> addTopContributor) cs = map addTopContributor cs"
      by (rule map_cong) (use TreeNode.IH Some in simp_all)
    then show ?thesis using Some by simp
  qed
  then show ?case by (simp only: addTopContributor_unfold) simp
qed


lemma addTopContributor_fields:
  "type (addTopContributor n) = type n"
  "authors (addTopContributor n) = authors n"
  "singleAuthor (addTopContributor n) = singleAuthor n"
  "topContributor (addTopContributor n)
     = (if type n = ''blob'' then Some (findTopContributor (authors n)) else topContributor n)"
  by (cases n; simp only: addTopContributor_unfold; simp)+

lemma addSingleAuthor_fields:
  "type (addSingleAuthor n) = type n"
  "authors (addSingleAuthor n) = authors n"
  "topContributor (addSingleAuthor n) = topContributor n"
  "singleAuthor (addSingleAuthor n)
     = (if type n = ''blob''
        then Some (length (Object_keys (case authors n of Some a \<Rightarrow> a | None \<Rightarrow> [])) = 1)
        else singleAuthor n)"
  by (cases n; simp only: addSingleAuthor_unfold; simp)+

lemma addMetrics_fields:
  "type (addMetrics n) = type n"
  "authors (addMetrics n) = authors n"
  "topContributor (addMetrics n)
     = (if type n = ''blob'' then Some (findTopContributor (authors n)) else topContributor n)"
  "singleAuthor (addMetrics n)
     = (if type n = ''blob''
        then Some (length (Object_keys (case authors n of Some a \<Rightarrow> a | None \<Rightarrow> [])) = 1)
        else singleAuthor n)"
  by (simp_all add: addMetrics.simps addTopContributor_fields addSingleAuthor_fields)

lemma addTopContributor_addMetrics: "addTopContributor (addMetrics n) = addMetrics n"
  by (simp add: addMetrics.simps addTopContributor_idem)

lemma addMetrics_unfold:
  "addMetrics (TreeNode ty au ch lce lcf co sa tc) =
     TreeNode ty au (map_option (map addMetrics) ch) lce lcf co
       (if ty = ''blob''
        then Some (length (Object_keys (case au of Some a \<Rightarrow> a | None \<Rightarrow> [])) = 1)
        else sa)
       (if ty = ''blob'' then Some (findTopContributor au) else tc)"
proof -
  have "map_option (map addTopContributor) (map_option (map addMetrics) ch)
          = map_option (map addMetrics) ch"
    by (cases ch) (simp_all add: addTopContributor_addMetrics)
  then show ?thesis
    by (simp only: addMetrics.simps addSingleAuthor_unfold addTopContributor_unfold)
qed

lemma nodes_addMetrics: "nodes (addMetrics t) = map addMetrics (nodes t)"
proof (induction t)
  case (TreeNode ty au ch lce lcf co sa tc)
  show ?case
  proof (cases ch)
    case None
    then show ?thesis by (simp add: addMetrics_unfold)
  next
    case (Some cs)
    have "concat (map nodes (map addMetrics cs)) = map addMetrics (concat (map nodes cs))"
      by (rule concat_map_nodes) (use TreeNode.IH Some in simp)
    then show ?thesis using Some by (simp add: addMetrics_unfold)
  qed
qed

lemma nodes_addSingleAuthor:
  "nodes (addSingleAuthor t) = addSingleAuthor t # map addMetrics (tl (nodes t))"
proof (cases t)
  case (TreeNode ty au ch lce lcf co sa tc)
  show ?thesis
  proof (cases ch)
    case None
    then show ?thesis using TreeNode by (simp only: addSingleAuthor_unfold) simp
  next
    case (Some cs)
    have "concat (map nodes (map addMetrics cs)) = map addMetrics (concat (map nodes cs))"
      by (rule concat_map_nodes) (simp add: nodes_addMetrics)
    then show ?thesis using TreeNode Some by (simp only: addSingleAuthor_unfold) simp
  qed
qed

subsection \<open>The scan for the top contributor\<close>










subsection \<open>The single-author flag\<close>

lemma length_Object_keys: "length (Object_keys a) = length a"
  using mset_Object_keys[of a, THEN mset_eq_length] by simp

lemma key_count:
  "distinct (map fst a) \<Longrightarrow> length (Object_keys a) = card (fst ` set a)"
  by (metis distinct_card length_Object_keys length_map set_map)

text \<open>
  Claim C4. For every tree and every blob in it, after \<open>addMetrics\<close> the blob's
  \<open>singleAuthor\<close> flag is set, and it is true exactly when the blob has an \<open>authors\<close>
  map whose key enumeration has one element; it is false when the map is empty or
  absent. The map itself is as before. (For a map with distinct keys the length of the
  enumeration is the number of keys, \<open>key_count\<close>.)
\<close>

theorem addMetrics_singleAuthor:
  assumes "i < length (nodes t)" and "type (nodes t ! i) = ''blob''"
  shows "singleAuthor (nodes (addMetrics t) ! i)
           = Some (case authors (nodes t ! i) of
                     Some a \<Rightarrow> length (Object_keys a) = 1
                   | None \<Rightarrow> False)
         \<and> authors (nodes (addMetrics t) ! i) = authors (nodes t ! i)"
proof -
  have "nodes (addMetrics t) ! i = addMetrics (nodes t ! i)"
    using assms(1) by (simp add: nodes_addMetrics)
  then show ?thesis
    using assms(2)
    by (cases "authors (nodes t ! i)") (simp_all add: addMetrics_fields Object_keys_def Object_entries_def)
qed

text \<open>The blob of the spec's example has two authors: the flag is false.\<close>

theorem addMetrics_singleAuthor_witness:
  "singleAuthor (nodes (addMetrics example_tree) ! 1) = Some False"
proof -
  have h1: "1 < length (nodes example_tree)"
    by (simp add: example_tree_def example_blob_def)
  have h2: "type (nodes example_tree ! 1) = ''blob''"
    by (simp add: example_tree_def example_blob_def)
  have au: "authors (nodes example_tree ! 1) = Some [(''A'', Finite 3), (''B'', Finite 1)]"
    by (simp add: example_tree_def example_blob_def)
  from addMetrics_singleAuthor[OF h1 h2] show ?thesis
    unfolding au by (simp add: length_Object_keys)
qed

subsection \<open>addSingleAuthor on its own\<close>

text \<open>
  Claim C10. \<open>addSingleAuthor\<close> called on its own leaves the root's \<open>topContributor\<close> as
  it was and sets the root's \<open>singleAuthor\<close> flag when the root is a blob. Every other
  node of the tree is the result of \<open>addMetrics\<close> on it: a proper descendant that is a
  blob gets both its \<open>singleAuthor\<close> flag and its \<open>topContributor\<close>.
\<close>

theorem addSingleAuthor_runs_addMetrics_below:
  shows "topContributor (addSingleAuthor t) = topContributor t
         \<and> (type t = ''blob'' \<longrightarrow> singleAuthor (addSingleAuthor t) \<noteq> None)
         \<and> (\<forall>i. 0 < i \<and> i < length (nodes t) \<longrightarrow>
               nodes (addSingleAuthor t) ! i = addMetrics (nodes t ! i)
               \<and> (type (nodes t ! i) = ''blob'' \<longrightarrow>
                    topContributor (nodes (addSingleAuthor t) ! i)
                      = Some (findTopContributor (authors (nodes t ! i)))
                    \<and> singleAuthor (nodes (addSingleAuthor t) ! i) \<noteq> None))"
proof -
  have below: "nodes (addSingleAuthor t) ! i = addMetrics (nodes t ! i)"
    if pos: "0 < i" and lt: "i < length (nodes t)" for i
  proof -
    obtain j where j: "i = Suc j" using pos by (cases i) auto
    have "j < length (tl (nodes t))" using lt j by simp
    then have "map addMetrics (tl (nodes t)) ! j = addMetrics (tl (nodes t) ! j)" by simp
    also have "tl (nodes t) ! j = nodes t ! i"
      using lt j by (simp add: nth_tl)
    finally show ?thesis by (simp add: nodes_addSingleAuthor j)
  qed
  show ?thesis
    using below by (simp add: addSingleAuthor_fields addMetrics_fields)
qed

text \<open>
  The spec's example tree: the root, a tree node, gets nothing; the blob below it gets
  \<open>topContributor\<close> from a call of \<open>addSingleAuthor\<close> alone.
\<close>

theorem addSingleAuthor_runs_addMetrics_below_witness:
  "topContributor (addSingleAuthor example_tree) = None
   \<and> topContributor (nodes (addSingleAuthor example_tree) ! 1) = Some ''A''
   \<and> singleAuthor (nodes (addSingleAuthor example_tree) ! 1) = Some False"
proof -
  have h1: "0 < (1::nat) \<and> 1 < length (nodes example_tree)"
    by (simp add: example_tree_def example_blob_def)
  have n1: "nodes example_tree ! 1 = example_blob"
    by (simp add: example_tree_def example_blob_def)
  have root: "topContributor example_tree = None" by (simp add: example_tree_def)
  have ty: "type example_blob = ''blob''" by (simp add: example_blob_def)
  have top: "findTopContributor (authors example_blob) = ''A''" by code_simp
  have tc: "topContributor (addMetrics example_blob) = Some ''A''"
    by (simp add: addMetrics_fields ty top)
  have sa: "singleAuthor (addMetrics example_blob) = Some False"
    by (simp add: addMetrics_fields example_blob_def length_Object_keys)
  from addSingleAuthor_runs_addMetrics_below[of example_tree] h1
  have a: "topContributor (addSingleAuthor example_tree) = topContributor example_tree"
    and b: "nodes (addSingleAuthor example_tree) ! 1 = addMetrics (nodes example_tree ! 1)"
    by blast+
  show ?thesis
    unfolding a b n1 root tc sa by simp
qed

section \<open>Normalising a map of total weight zero\<close>












section \<open>Tree nodes without a children field\<close>

lemma updateCommits_forEach_fails_iff:
  assumes "\<And>c. c \<in> set cs \<Longrightarrow> (\<exists>e. updateCommits cal c commitsJson = Inl e) \<longleftrightarrow> bad c"
  shows "(\<exists>e. updateCommits_forEach cal cs commitsJson = Inl e) \<longleftrightarrow> (\<exists>c\<in>set cs. bad c)"
  using assms
proof (induction cs)
  case Nil
  then show ?case by simp
next
  case (Cons c cs)
  have c: "(\<exists>e. updateCommits cal c commitsJson = Inl e) \<longleftrightarrow> bad c"
    using Cons.prems by simp
  have cs: "(\<exists>e. updateCommits_forEach cal cs commitsJson = Inl e) \<longleftrightarrow> (\<exists>c\<in>set cs. bad c)"
    using Cons by simp
  show ?case
    using c cs by (auto split: sum.splits)
qed

lemma updateCommits_fails_iff:
  "(\<exists>e. updateCommits cal t commitsJson = Inl e)
     \<longleftrightarrow> (\<exists>m\<in>set (tree_walk t). type m = ''tree'' \<and> children m = None)"
proof (induction t)
  case (TreeNode ty au ch lce lcf co sa tc)
  show ?case
  proof (cases "ty = ''tree''")
    case True
    then have nb: "ty \<noteq> ''blob''" by simp
    show ?thesis
    proof (cases ch)
      case None
      then show ?thesis using True by simp
    next
      case (Some cs)
      have "(\<exists>e. updateCommits_forEach cal cs commitsJson = Inl e)
              \<longleftrightarrow> (\<exists>c\<in>set cs. \<exists>m\<in>set (tree_walk c). type m = ''tree'' \<and> children m = None)"
        by (rule updateCommits_forEach_fails_iff) (use TreeNode.IH Some in simp)
      then show ?thesis using True nb Some
        by (auto split: sum.splits)
    qed
  next
    case False
    then show ?thesis by (auto split: option.splits bool.splits)
  qed
qed

lemma updateLastChangeDate_forEach_fails_iff:
  assumes "\<And>c. c \<in> set cs \<Longrightarrow> (\<exists>e. updateLastChangeDate cal c = Inl e) \<longleftrightarrow> bad c"
  shows "(\<exists>e. updateLastChangeDate_forEach cal cs = Inl e) \<longleftrightarrow> (\<exists>c\<in>set cs. bad c)"
  using assms
proof (induction cs)
  case Nil
  then show ?case by simp
next
  case (Cons c cs)
  have c: "(\<exists>e. updateLastChangeDate cal c = Inl e) \<longleftrightarrow> bad c"
    using Cons.prems by simp
  have cs: "(\<exists>e. updateLastChangeDate_forEach cal cs = Inl e) \<longleftrightarrow> (\<exists>c\<in>set cs. bad c)"
    using Cons by simp
  show ?case
    using c cs by (auto split: sum.splits)
qed

lemma updateLastChangeDate_fails_iff:
  "(\<exists>e. updateLastChangeDate cal t = Inl e)
     \<longleftrightarrow> (\<exists>m\<in>set (tree_walk t). type m = ''tree'' \<and> children m = None)"
proof (induction t)
  case (TreeNode ty au ch lce lcf co sa tc)
  show ?case
  proof (cases "ty = ''tree''")
    case True
    then have nb: "ty \<noteq> ''blob''" by simp
    show ?thesis
    proof (cases ch)
      case None
      then show ?thesis using True by simp
    next
      case (Some cs)
      have "(\<exists>e. updateLastChangeDate_forEach cal cs = Inl e)
              \<longleftrightarrow> (\<exists>c\<in>set cs. \<exists>m\<in>set (tree_walk c). type m = ''tree'' \<and> children m = None)"
        by (rule updateLastChangeDate_forEach_fails_iff) (use TreeNode.IH Some in simp)
      then show ?thesis using True nb Some
        by (auto split: sum.splits)
    qed
  next
    case False
    then show ?thesis by (auto split: option.splits bool.splits)
  qed
qed

lemma error_is_TypeError: "(x = Inl TypeError) = (\<exists>e::error. x = Inl e)"
  by (metis error.exhaust)

lemma not_Inl_error: "(\<nexists>e::error. x = Inl e) \<Longrightarrow> \<exists>y. x = Inr y"
  by (cases x) auto

text \<open>
  Claim C9, as amended. On a node of type \<^verbatim>\<open>'tree'\<close> that has no \<open>children\<close> field,
  \<open>updateLastChangeDate\<close> and \<open>updateCommits\<close> fail with a TypeError, whereas
  \<open>updateAuthorValues\<close> returns the node with nothing changed but its \<open>authors\<close> map,
  which is normalised if the node has one: a node without \<open>authors\<close> is returned
  unchanged. On any tree, each of the two walks fails exactly when it reaches such a
  node, and returns a tree otherwise: that the tree nodes reached carry a \<open>children\<close>
  field is the condition for the two walks to return, and \<open>updateAuthorValues\<close> needs
  no such condition.
\<close>

theorem children_field_precondition:
  "(type n = ''tree'' \<and> children n = None \<longrightarrow>
      updateLastChangeDate cal n = Inl TypeError
      \<and> updateCommits cal n commitsJson = Inl TypeError
      \<and> updateAuthorValues n
          = TreeNode (type n) (map_option sortedAuthors (authors n)) None (lastChangeEpoch n)
              (lastChangeEpochFormatted n) (commits n) (singleAuthor n) (topContributor n)
      \<and> (authors n = None \<longrightarrow> updateAuthorValues n = n))
   \<and> (if \<exists>m\<in>set (tree_walk t). type m = ''tree'' \<and> children m = None
       then updateLastChangeDate cal t = Inl TypeError
            \<and> updateCommits cal t commitsJson = Inl TypeError
       else (\<exists>t'. updateLastChangeDate cal t = Inr t')
            \<and> (\<exists>t'. updateCommits cal t commitsJson = Inr t'))"
proof -
  have node: "updateLastChangeDate cal n = Inl TypeError
      \<and> updateCommits cal n commitsJson = Inl TypeError
      \<and> updateAuthorValues n
          = TreeNode (type n) (map_option sortedAuthors (authors n)) None (lastChangeEpoch n)
              (lastChangeEpochFormatted n) (commits n) (singleAuthor n) (topContributor n)
      \<and> (authors n = None \<longrightarrow> updateAuthorValues n = n)"
    if "type n = ''tree''" and "children n = None"
    using that by (cases n) (auto split: option.splits)
  have walk: "if \<exists>m\<in>set (tree_walk t). type m = ''tree'' \<and> children m = None
       then updateLastChangeDate cal t = Inl TypeError
            \<and> updateCommits cal t commitsJson = Inl TypeError
       else (\<exists>t'. updateLastChangeDate cal t = Inr t')
            \<and> (\<exists>t'. updateCommits cal t commitsJson = Inr t')"
    using updateCommits_fails_iff[of cal t commitsJson]
      updateLastChangeDate_fails_iff[of cal t]
      not_Inl_error[of "updateCommits cal t commitsJson"]
      not_Inl_error[of "updateLastChangeDate cal t"]
    by (auto simp: error_is_TypeError)
  show ?thesis using node walk by blast
qed

text \<open>
  A tree node with neither \<open>children\<close> nor \<open>authors\<close>: the two walks fail on it and
  \<open>updateAuthorValues\<close> returns it as it is. The spec's example tree: both walks
  return.
\<close>

theorem children_field_precondition_witness:
  "updateLastChangeDate utc_calendar (TreeNode ''tree'' None None None None None None None)
     = Inl TypeError
   \<and> updateCommits utc_calendar (TreeNode ''tree'' None None None None None None None)
       example_commitsJson = Inl TypeError
   \<and> updateAuthorValues (TreeNode ''tree'' None None None None None None None)
       = TreeNode ''tree'' None None None None None None None
   \<and> (\<exists>t'. updateLastChangeDate utc_calendar example_tree = Inr t')
   \<and> (\<exists>t'. updateCommits utc_calendar example_tree example_commitsJson = Inr t')"
proof -
  let ?n = "TreeNode ''tree'' None None None None None None None"
  have h1: "type ?n = ''tree'' \<and> children ?n = None" by simp
  have h2: "authors ?n = None" by simp
  have h3: "\<not> (\<exists>m\<in>set (tree_walk example_tree). type m = ''tree'' \<and> children m = None)"
    by (simp add: example_tree_def example_blob_def)
  from children_field_precondition[of ?n utc_calendar example_commitsJson example_tree] h1 h2 h3
  show ?thesis by auto
qed

text \<open>
  A tree node without \<open>children\<close> that carries an \<open>authors\<close> map is not left unchanged by
  \<open>updateAuthorValues\<close>: the weight 1 of its one author becomes the percentage 100.
\<close>

theorem children_field_precondition_counterexample:
  "updateAuthorValues (TreeNode ''tree'' (Some [(''A'', Finite 1)]) None None None None None None)
     = TreeNode ''tree'' (Some [(''A'', Finite 100)]) None None None None None None"
  by code_simp

section \<open>Properties of the aggregate reductions\<close>

lemma Math_max_nat: "Math_max (number_of_nat a) (number_of_nat b) = number_of_nat (max a b)"
  by (simp add: Math_max_def number_of_nat_def max_def)

lemma Math_min_nat: "Math_min (number_of_nat a) (number_of_nat b) = number_of_nat (min a b)"
  by (simp add: Math_min_def number_of_nat_def min_def)

lemma Math_max_int: "Math_max (number_of_int a) (number_of_int b) = number_of_int (max a b)"
  by (simp add: Math_max_def number_of_int_def max_def)

lemma Math_min_int: "Math_min (number_of_int a) (number_of_int b) = number_of_int (min a b)"
  by (simp add: Math_min_def number_of_int_def min_def)

lemma foldl_Math_max:
  fixes g :: "'c \<Rightarrow> 'a::linorder"
  assumes e: "\<And>a b. Math_max (e a) (e b) = e (max a b)"
    and f: "\<forall>c\<in>set cs. f c = e (g c)"
  shows "foldl (\<lambda>m c. Math_max m (f c)) (e a) cs = e (Max (insert a (g ` set cs)))"
  using f
proof (induction cs arbitrary: a)
  case Nil
  then show ?case by simp
next
  case (Cons c cs)
  have "Max (insert (max a (g c)) (g ` set cs)) = Max (insert a (insert (g c) (g ` set cs)))"
    by (cases "set cs = {}") (simp_all add: max.assoc)
  then show ?case using Cons by (simp add: e)
qed

lemma foldl_Math_min:
  fixes g :: "'c \<Rightarrow> 'a::linorder"
  assumes e: "\<And>a b. Math_min (e a) (e b) = e (min a b)"
    and f: "\<forall>c\<in>set cs. f c = e (g c)"
  shows "foldl (\<lambda>m c. Math_min m (f c)) (e a) cs = e (Min (insert a (g ` set cs)))"
  using f
proof (induction cs arbitrary: a)
  case Nil
  then show ?case by simp
next
  case (Cons c cs)
  have "Min (insert (min a (g c)) (g ` set cs)) = Min (insert a (insert (g c) (g ` set cs)))"
    by (cases "set cs = {}") (simp_all add: min.assoc)
  then show ?case using Cons by (simp add: e)
qed

lemma foldl_Math_min_PlusInfinity:
  fixes g :: "'c \<Rightarrow> 'a::linorder"
  assumes e: "\<And>a b. Math_min (e a) (e b) = e (min a b)"
    and inf: "\<And>a. Math_min PlusInfinity (e a) = e a"
    and f: "\<forall>c\<in>set cs. f c = e (g c)"
  shows "foldl (\<lambda>m c. Math_min m (f c)) PlusInfinity cs
           = (if cs = [] then PlusInfinity else e (Min (g ` set cs)))"
proof (cases cs)
  case Nil
  then show ?thesis by simp
next
  case (Cons c cs')
  have "foldl (\<lambda>m c. Math_min m (f c)) (e (g c)) cs' = e (Min (insert (g c) (g ` set cs')))"
    by (rule foldl_Math_min[OF e]) (use f Cons in simp)
  then show ?thesis using Cons f by (simp add: inf)
qed

lemma Max_of_Maxes:
  fixes z :: "'a::linorder"
  assumes "finite O'" and "finite C" and "\<And>c. c \<in> C \<Longrightarrow> finite (S c)"
  shows "Max (insert (Max (insert z O')) ((\<lambda>c. Max (insert z (S c))) ` C))
           = Max (insert z (O' \<union> \<Union> (S ` C)))"
proof (rule antisym)
  let ?T = "insert z (O' \<union> \<Union> (S ` C))"
  have fT: "finite ?T" using assms by simp
  show "Max (insert (Max (insert z O')) ((\<lambda>c. Max (insert z (S c))) ` C)) \<le> Max ?T"
  proof (rule Max.boundedI)
    show "finite (insert (Max (insert z O')) ((\<lambda>c. Max (insert z (S c))) ` C))"
      using assms by simp
    show "insert (Max (insert z O')) ((\<lambda>c. Max (insert z (S c))) ` C) \<noteq> {}" by simp
    fix a assume "a \<in> insert (Max (insert z O')) ((\<lambda>c. Max (insert z (S c))) ` C)"
    then consider "a = Max (insert z O')" | c where "c \<in> C" "a = Max (insert z (S c))"
      by auto
    then show "a \<le> Max ?T"
    proof cases
      case 1
      then show ?thesis using fT by (auto intro!: Max_mono)
    next
      case 2
      then show ?thesis using fT by (auto intro!: Max_mono)
    qed
  qed
  show "Max ?T \<le> Max (insert (Max (insert z O')) ((\<lambda>c. Max (insert z (S c))) ` C))"
    (is "_ \<le> Max ?L")
  proof (rule Max.boundedI)
    show "finite ?T" by (rule fT)
    show "?T \<noteq> {}" by simp
    have fL: "finite ?L" using assms by simp
    have top: "Max (insert z O') \<le> Max ?L" using fL by (intro Max_ge) simp_all
    fix a assume "a \<in> ?T"
    then consider "a = z" | "a \<in> O'" | c where "c \<in> C" "a \<in> S c" by auto
    then show "a \<le> Max ?L"
    proof cases
      case 1
      have "z \<le> Max (insert z O')" using assms(1) by (intro Max_ge) simp_all
      then show ?thesis using 1 top by simp
    next
      case 2
      have "a \<le> Max (insert z O')" using assms(1) 2 by (intro Max_ge) simp_all
      then show ?thesis using top by simp
    next
      case 3
      have "a \<le> Max (insert z (S c))" using assms(3)[OF 3(1)] 3(2) by (intro Max_ge) simp_all
      moreover have "Max (insert z (S c)) \<le> Max ?L" using fL 3(1) by (intro Max_ge) auto
      ultimately show ?thesis by simp
    qed
  qed
qed

lemma Min_of_Mins:
  fixes O' :: "'a::linorder set"
  assumes "finite O'" and "finite C" and "\<And>c. c \<in> C \<Longrightarrow> finite (S c) \<and> S c \<noteq> {}"
    and ne: "O' \<union> C' \<noteq> {}" and C': "C' = (\<lambda>c. Min (S c)) ` C"
  shows "Min (O' \<union> C') = Min (O' \<union> \<Union> (S ` C))"
proof (rule antisym)
  let ?T = "O' \<union> \<Union> (S ` C)"
  let ?L = "O' \<union> C'"
  have fT: "finite ?T" using assms by auto
  have fL: "finite ?L" using assms by simp
  have neT: "?T \<noteq> {}" using ne assms(3) C' by auto
  show "Min ?L \<le> Min ?T"
  proof (rule Min.boundedI[OF fT neT])
    fix a assume "a \<in> ?T"
    then consider "a \<in> O'" | c where "c \<in> C" "a \<in> S c" by auto
    then show "Min ?L \<le> a"
    proof cases
      case 1
      then show ?thesis using fL by (intro Min_le) simp_all
    next
      case 2
      have "Min (S c) \<le> a" using assms(3)[OF 2(1)] 2(2) by (intro Min_le) simp_all
      moreover have "Min ?L \<le> Min (S c)" using fL 2(1) C' by (intro Min_le) auto
      ultimately show ?thesis by simp
    qed
  qed
  show "Min ?T \<le> Min ?L"
  proof (rule Min.boundedI[OF fL ne])
    fix a assume "a \<in> ?L"
    then consider "a \<in> O'" | c where "c \<in> C" "a = Min (S c)" using C' by auto
    then show "Min ?T \<le> a"
    proof cases
      case 1
      then show ?thesis using fT by (intro Min_le) simp_all
    next
      case 2
      have "Min (S c) \<in> S c" using assms(3)[OF 2(1)] by (intro Min_in) simp_all
      then show ?thesis using fT 2 by (intro Min_le) auto
    qed
  qed
qed

lemma max_reduce:
  fixes e :: "'a::linorder \<Rightarrow> number"
  assumes e: "\<And>a b. Math_max (e a) (e b) = e (max a b)"
    and kids: "\<forall>c\<in>set cs. F c = e (Max (insert z (set (S c))))"
  shows "foldl (\<lambda>m c. Math_max m (F c)) (e (Max (insert z (set own)))) cs
           = e (Max (insert z (set (own @ concat (map S cs)))))"
proof -
  have "foldl (\<lambda>m c. Math_max m (F c)) (e (Max (insert z (set own)))) cs
          = e (Max (insert (Max (insert z (set own)))
                      ((\<lambda>c. Max (insert z (set (S c)))) ` set cs)))"
    by (rule foldl_Math_max[OF e kids])
  also have "Max (insert (Max (insert z (set own)))
                      ((\<lambda>c. Max (insert z (set (S c)))) ` set cs))
               = Max (insert z (set own \<union> \<Union> ((\<lambda>c. set (S c)) ` set cs)))"
    by (rule Max_of_Maxes) simp_all
  finally show ?thesis by simp
qed

lemma min_reduce_covered:
  fixes e :: "'a::linorder \<Rightarrow> number"
  assumes e: "\<And>a b. Math_min (e a) (e b) = e (min a b)"
    and inf: "\<And>a. Math_min PlusInfinity (e a) = e a"
    and fin: "\<And>a. e a \<noteq> PlusInfinity"
    and own: "own = [] \<or> (\<exists>k. own = [k])"
    and kids: "\<forall>c\<in>set cs. F c = e (Min (set (S c))) \<and> S c \<noteq> []"
    and ne: "own @ concat (map S cs) \<noteq> []"
  shows "(let m = foldl (\<lambda>m c. Math_min m (F c))
                    (case own of [] \<Rightarrow> PlusInfinity | k # _ \<Rightarrow> e k) cs
          in if m = PlusInfinity then Finite 0 else m)
           = e (Min (set (own @ concat (map S cs))))"
proof -
  let ?g = "\<lambda>c. Min (set (S c))"
  have f: "\<forall>c\<in>set cs. F c = e (?g c)" using kids by simp
  have union: "Min (set own \<union> ?g ` set cs) = Min (set own \<union> \<Union> ((\<lambda>c. set (S c)) ` set cs))"
    if "set own \<union> ?g ` set cs \<noteq> {}"
    by (rule Min_of_Mins[where C = "set cs"]) (use kids that in simp_all)
  have m: "foldl (\<lambda>m c. Math_min m (F c)) (case own of [] \<Rightarrow> PlusInfinity | k # _ \<Rightarrow> e k) cs
             = e (Min (set own \<union> ?g ` set cs))"
  proof (cases own)
    case Nil
    then have "cs \<noteq> []" using ne by auto
    then show ?thesis
      using foldl_Math_min_PlusInfinity[OF e inf f] Nil by simp
  next
    case (Cons k rest)
    then have "own = [k]" using own by auto
    then show ?thesis
      using foldl_Math_min[OF e f, of k] by simp
  qed
  have "set own \<union> ?g ` set cs \<noteq> {}" using ne by (cases own) auto
  then show ?thesis
    using m union by (simp add: fin Let_def)
qed

lemma min_reduce_none:
  assumes kids: "\<forall>c\<in>set cs. F c = Finite 0"
  shows "(let m = foldl (\<lambda>m c. Math_min m (F c)) PlusInfinity cs
          in if m = PlusInfinity then Finite 0 else m) = Finite 0"
proof -
  have zero: "foldl (\<lambda>m c. Math_min m (F c)) (Finite 0) xs = Finite 0"
    if "\<forall>c\<in>set xs. F c = Finite 0" for xs
    using that by (induction xs) (simp_all add: Math_min_def)
  show ?thesis
  proof (cases cs)
    case Nil
    then show ?thesis by simp
  next
    case (Cons c cs')
    then have "foldl (\<lambda>m c. Math_min m (F c)) PlusInfinity cs = Finite 0"
      using kids zero[of cs'] by (simp add: Math_min_def)
    then show ?thesis by simp
  qed
qed

lemma concat_map_concat:
  "concat (map f (concat (map nodes cs))) = concat (map (\<lambda>c. concat (map f (nodes c))) cs)"
  by (induction cs) simp_all

lemma commitCounts_node:
  "commitCounts (TreeNode ty au ch lce lcf co sa tc)
     = commitCount (TreeNode ty au ch lce lcf co sa tc)
         @ concat (map commitCounts (case ch of None \<Rightarrow> [] | Some cs \<Rightarrow> cs))"
proof -
  have eq: "commitCounts = (\<lambda>c. concat (map commitCount (nodes c)))"
    by (rule ext) (simp add: commitCounts_def)
  show ?thesis
    unfolding eq by (cases ch) (simp_all add: concat_map_concat)
qed

lemma changeEpochs_node:
  "changeEpochs (TreeNode ty au ch lce lcf co sa tc)
     = changeEpoch (TreeNode ty au ch lce lcf co sa tc)
         @ concat (map changeEpochs (case ch of None \<Rightarrow> [] | Some cs \<Rightarrow> cs))"
proof -
  have eq: "changeEpochs = (\<lambda>c. concat (map changeEpoch (nodes c)))"
    by (rule ext) (simp add: changeEpochs_def)
  show ?thesis
    unfolding eq by (cases ch) (simp_all add: concat_map_concat)
qed

lemma subtree_nodes:
  assumes "c \<in> set cs" and "n \<in> set (nodes c)"
  shows "n \<in> set (nodes (TreeNode ty au (Some cs) lce lcf co sa tc))"
  using assms by auto

lemma getMaxCommits_node:
  "getMaxCommits (TreeNode ty au ch lce lcf co sa tc)
     = foldl (\<lambda>m c. Math_max m (getMaxCommits c))
         (number_of_nat (Max (insert 0 (set (commitCount (TreeNode ty au ch lce lcf co sa tc))))))
         (case ch of None \<Rightarrow> [] | Some cs \<Rightarrow> cs)"
  by (cases ch; cases co; cases "ty = ''blob''")
    (simp_all add: commitCount_def Math_max_def number_of_nat_def)

lemma getLastChangeEpoch_node:
  "getLastChangeEpoch (TreeNode ty au ch lce lcf co sa tc)
     = foldl (\<lambda>m c. Math_max m (getLastChangeEpoch c))
         (number_of_int (Max (insert 0 (set (changeEpoch (TreeNode ty au ch lce lcf co sa tc))))))
         (case ch of None \<Rightarrow> [] | Some cs \<Rightarrow> cs)"
  by (cases ch; cases lce; cases "ty = ''blob''")
    (simp_all add: changeEpoch_def Math_max_def number_of_int_def max_def)

lemma getMinCommits_node:
  "getMinCommits (TreeNode ty au ch lce lcf co sa tc)
     = (let m = foldl (\<lambda>m c. Math_min m (getMinCommits c))
                  (case commitCount (TreeNode ty au ch lce lcf co sa tc) of
                     [] \<Rightarrow> PlusInfinity | k # _ \<Rightarrow> number_of_nat k)
                  (case ch of None \<Rightarrow> [] | Some cs \<Rightarrow> cs)
        in if m = PlusInfinity then Finite 0 else m)"
  by (cases ch; cases co; cases "ty = ''blob''")
    (simp_all add: commitCount_def Math_min_def number_of_nat_def)

lemma getFirstChangeEpoch_node:
  "getFirstChangeEpoch (TreeNode ty au ch lce lcf co sa tc)
     = (let m = foldl (\<lambda>m c. Math_min m (getFirstChangeEpoch c))
                  (case changeEpoch (TreeNode ty au ch lce lcf co sa tc) of
                     [] \<Rightarrow> PlusInfinity | k # _ \<Rightarrow> number_of_int k)
                  (case ch of None \<Rightarrow> [] | Some cs \<Rightarrow> cs)
        in if m = PlusInfinity then Finite 0 else m)"
  by (cases ch; cases lce; cases "ty = ''blob''")
    (simp_all add: changeEpoch_def Math_min_def number_of_int_def)

lemma getMaxCommits_Max:
  "getMaxCommits t = number_of_nat (Max (insert 0 (set (commitCounts t))))"
proof (induction t)
  case (TreeNode ty au ch lce lcf co sa tc)
  let ?cs = "case ch of None \<Rightarrow> [] | Some cs \<Rightarrow> cs"
  have kids: "\<forall>c\<in>set ?cs. getMaxCommits c = number_of_nat (Max (insert 0 (set (commitCounts c))))"
    using TreeNode.IH by (cases ch) auto
  show ?case
    unfolding getMaxCommits_node commitCounts_node
    by (rule max_reduce[OF Math_max_nat kids])
qed

lemma getLastChangeEpoch_Max:
  "getLastChangeEpoch t = number_of_int (Max (insert 0 (set (changeEpochs t))))"
proof (induction t)
  case (TreeNode ty au ch lce lcf co sa tc)
  let ?cs = "case ch of None \<Rightarrow> [] | Some cs \<Rightarrow> cs"
  have kids: "\<forall>c\<in>set ?cs. getLastChangeEpoch c
                = number_of_int (Max (insert 0 (set (changeEpochs c))))"
    using TreeNode.IH by (cases ch) auto
  show ?case
    unfolding getLastChangeEpoch_node changeEpochs_node
    by (rule max_reduce[OF Math_max_int kids])
qed

lemma getMinCommits_none: "commitCounts t = [] \<Longrightarrow> getMinCommits t = Finite 0"
proof (induction t)
  case (TreeNode ty au ch lce lcf co sa tc)
  let ?cs = "case ch of None \<Rightarrow> [] | Some cs \<Rightarrow> cs"
  from TreeNode.prems have own: "commitCount (TreeNode ty au ch lce lcf co sa tc) = []"
    and sub: "\<forall>c\<in>set ?cs. commitCounts c = []"
    by (simp_all add: commitCounts_node)
  have kids: "\<forall>c\<in>set ?cs. getMinCommits c = Finite 0"
    using TreeNode.IH sub by (cases ch) auto
  show ?case
    unfolding getMinCommits_node own using min_reduce_none[OF kids] by simp
qed

lemma getFirstChangeEpoch_none: "changeEpochs t = [] \<Longrightarrow> getFirstChangeEpoch t = Finite 0"
proof (induction t)
  case (TreeNode ty au ch lce lcf co sa tc)
  let ?cs = "case ch of None \<Rightarrow> [] | Some cs \<Rightarrow> cs"
  from TreeNode.prems have own: "changeEpoch (TreeNode ty au ch lce lcf co sa tc) = []"
    and sub: "\<forall>c\<in>set ?cs. changeEpochs c = []"
    by (simp_all add: changeEpochs_node)
  have kids: "\<forall>c\<in>set ?cs. getFirstChangeEpoch c = Finite 0"
    using TreeNode.IH sub by (cases ch) auto
  show ?case
    unfolding getFirstChangeEpoch_node own using min_reduce_none[OF kids] by simp
qed

lemma getMinCommits_covered:
  "\<forall>n\<in>set (nodes t). commitCounts n \<noteq> [] \<Longrightarrow>
     getMinCommits t = number_of_nat (Min (set (commitCounts t)))"
proof (induction t)
  case (TreeNode ty au ch lce lcf co sa tc)
  let ?t = "TreeNode ty au ch lce lcf co sa tc"
  let ?cs = "case ch of None \<Rightarrow> [] | Some cs \<Rightarrow> cs"
  have cov: "\<forall>n\<in>set (nodes c). commitCounts n \<noteq> []" if "c \<in> set ?cs" for c
    using TreeNode.prems that by (cases ch) auto
  have kids: "\<forall>c\<in>set ?cs. getMinCommits c = number_of_nat (Min (set (commitCounts c)))
                \<and> commitCounts c \<noteq> []"
  proof
    fix c assume c: "c \<in> set ?cs"
    have "c \<in> set (nodes c)" by (cases c) simp
    then have "commitCounts c \<noteq> []" using cov[OF c] by blast
    moreover have "getMinCommits c = number_of_nat (Min (set (commitCounts c)))"
      using TreeNode.IH cov[OF c] c by (cases ch) auto
    ultimately show "getMinCommits c = number_of_nat (Min (set (commitCounts c)))
                \<and> commitCounts c \<noteq> []" by simp
  qed
  have own: "commitCount ?t = [] \<or> (\<exists>k. commitCount ?t = [k])"
    by (auto simp: commitCount_def split: option.splits bool.splits)
  have ne: "commitCount ?t @ concat (map commitCounts ?cs) \<noteq> []"
    using TreeNode.prems commitCounts_node[of ty au ch lce lcf co sa tc] by auto
  show ?case
    unfolding getMinCommits_node commitCounts_node
    by (rule min_reduce_covered[OF Math_min_nat _ _ own kids ne])
      (simp_all add: Math_min_def number_of_nat_def)
qed

lemma getFirstChangeEpoch_covered:
  "\<forall>n\<in>set (nodes t). changeEpochs n \<noteq> [] \<Longrightarrow>
     getFirstChangeEpoch t = number_of_int (Min (set (changeEpochs t)))"
proof (induction t)
  case (TreeNode ty au ch lce lcf co sa tc)
  let ?t = "TreeNode ty au ch lce lcf co sa tc"
  let ?cs = "case ch of None \<Rightarrow> [] | Some cs \<Rightarrow> cs"
  have cov: "\<forall>n\<in>set (nodes c). changeEpochs n \<noteq> []" if "c \<in> set ?cs" for c
    using TreeNode.prems that by (cases ch) auto
  have kids: "\<forall>c\<in>set ?cs. getFirstChangeEpoch c = number_of_int (Min (set (changeEpochs c)))
                \<and> changeEpochs c \<noteq> []"
  proof
    fix c assume c: "c \<in> set ?cs"
    have "c \<in> set (nodes c)" by (cases c) simp
    then have "changeEpochs c \<noteq> []" using cov[OF c] by blast
    moreover have "getFirstChangeEpoch c = number_of_int (Min (set (changeEpochs c)))"
      using TreeNode.IH cov[OF c] c by (cases ch) auto
    ultimately show "getFirstChangeEpoch c = number_of_int (Min (set (changeEpochs c)))
                \<and> changeEpochs c \<noteq> []" by simp
  qed
  have own: "changeEpoch ?t = [] \<or> (\<exists>k. changeEpoch ?t = [k])"
    by (auto simp: changeEpoch_def split: option.splits bool.splits)
  have ne: "changeEpoch ?t @ concat (map changeEpochs ?cs) \<noteq> []"
    using TreeNode.prems changeEpochs_node[of ty au ch lce lcf co sa tc] by auto
  show ?case
    unfolding getFirstChangeEpoch_node changeEpochs_node
    by (rule min_reduce_covered[OF Math_min_int _ _ own kids ne])
      (simp_all add: Math_min_def number_of_int_def)
qed

text \<open>
  Claim C7, as amended. On an empty tree (a node that is not a blob and has no
  children), and more generally on a tree in which no blob carries the field read, each
  of the four reductions returns 0. \<open>getMaxCommits\<close> is the maximum of the commit counts
  of the blobs that carry \<open>commits\<close>. \<open>getLastChangeEpoch\<close> is the maximum of 0 and the
  change epochs of the blobs that carry \<open>lastChangeEpoch\<close>. When every node of the tree
  has, in its subtree, a blob that carries \<open>commits\<close>, \<open>getMinCommits\<close> is the minimum of
  the commit counts; and likewise \<open>getFirstChangeEpoch\<close> is the minimum of the change
  epochs when every node has a blob with \<open>lastChangeEpoch\<close> in its subtree.
\<close>

theorem aggregate_reductions:
  "(type t \<noteq> ''blob'' \<and> (children t = None \<or> children t = Some []) \<longrightarrow>
      getMinCommits t = Finite 0 \<and> getMaxCommits t = Finite 0
      \<and> getFirstChangeEpoch t = Finite 0 \<and> getLastChangeEpoch t = Finite 0)
   \<and> (commitCounts t = [] \<longrightarrow> getMinCommits t = Finite 0 \<and> getMaxCommits t = Finite 0)
   \<and> (changeEpochs t = [] \<longrightarrow>
        getFirstChangeEpoch t = Finite 0 \<and> getLastChangeEpoch t = Finite 0)
   \<and> (commitCounts t \<noteq> [] \<longrightarrow>
        getMaxCommits t = number_of_nat (Max (set (commitCounts t))))
   \<and> (changeEpochs t \<noteq> [] \<longrightarrow>
        getLastChangeEpoch t = number_of_int (max 0 (Max (set (changeEpochs t)))))
   \<and> ((\<forall>n\<in>set (nodes t). commitCounts n \<noteq> []) \<longrightarrow>
        getMinCommits t = number_of_nat (Min (set (commitCounts t))))
   \<and> ((\<forall>n\<in>set (nodes t). changeEpochs n \<noteq> []) \<longrightarrow>
        getFirstChangeEpoch t = number_of_int (Min (set (changeEpochs t))))"
proof -
  have none_c: "getMinCommits t = Finite 0 \<and> getMaxCommits t = Finite 0"
    if "commitCounts t = []"
    using that getMinCommits_none[OF that] getMaxCommits_Max[of t]
    by (simp add: number_of_nat_def)
  have none_e: "getFirstChangeEpoch t = Finite 0 \<and> getLastChangeEpoch t = Finite 0"
    if "changeEpochs t = []"
    using that getFirstChangeEpoch_none[OF that] getLastChangeEpoch_Max[of t]
    by (simp add: number_of_int_def)
  have empty: "commitCounts t = [] \<and> changeEpochs t = []"
    if "type t \<noteq> ''blob'' \<and> (children t = None \<or> children t = Some [])"
    using that
    by (cases t) (auto simp: commitCounts_def changeEpochs_def commitCount_def changeEpoch_def)
  have max_c: "getMaxCommits t = number_of_nat (Max (set (commitCounts t)))"
    if "commitCounts t \<noteq> []"
  proof -
    have "Max (insert 0 (set (commitCounts t))) = Max (set (commitCounts t))"
      using that by (simp add: max_def)
    then show ?thesis using getMaxCommits_Max[of t] by simp
  qed
  have max_e: "getLastChangeEpoch t = number_of_int (max 0 (Max (set (changeEpochs t))))"
    if "changeEpochs t \<noteq> []"
    using that getLastChangeEpoch_Max[of t] by simp
  show ?thesis
    using none_c none_e empty max_c max_e getMinCommits_covered[of t]
      getFirstChangeEpoch_covered[of t]
    by blast
qed

text \<open>
  The spec's example tree: two commits on its one blob, changed at 1700000000. And a
  tree node with an empty list of children: all four are 0.
\<close>

theorem aggregate_reductions_witness:
  "getMinCommits example_tree = Finite 2 \<and> getMaxCommits example_tree = Finite 2
   \<and> getFirstChangeEpoch example_tree = Finite 1700000000
   \<and> getLastChangeEpoch example_tree = Finite 1700000000
   \<and> getMinCommits (TreeNode ''tree'' None (Some []) None None None None None) = Finite 0
   \<and> getMaxCommits (TreeNode ''tree'' None (Some []) None None None None None) = Finite 0
   \<and> getFirstChangeEpoch (TreeNode ''tree'' None (Some []) None None None None None) = Finite 0
   \<and> getLastChangeEpoch (TreeNode ''tree'' None (Some []) None None None None None) = Finite 0"
proof -
  let ?e = "TreeNode ''tree'' None (Some []) None None None None None"
  have e: "type ?e \<noteq> ''blob'' \<and> (children ?e = None \<or> children ?e = Some [])" by simp
  have c: "commitCounts example_tree = [2]"
    by (simp add: commitCounts_def commitCount_def example_tree_def example_blob_def
        commits_length_def)
  have ep: "changeEpochs example_tree = [1700000000]"
    by (simp add: changeEpochs_def changeEpoch_def example_tree_def example_blob_def)
  have cc: "\<forall>n\<in>set (nodes example_tree). commitCounts n \<noteq> []"
    by (simp add: commitCounts_def commitCount_def example_tree_def example_blob_def)
  have ce: "\<forall>n\<in>set (nodes example_tree). changeEpochs n \<noteq> []"
    by (simp add: changeEpochs_def changeEpoch_def example_tree_def example_blob_def)
  from aggregate_reductions[of ?e] e
  have empty: "getMinCommits ?e = Finite 0 \<and> getMaxCommits ?e = Finite 0
      \<and> getFirstChangeEpoch ?e = Finite 0 \<and> getLastChangeEpoch ?e = Finite 0"
    by blast
  from aggregate_reductions[of example_tree] cc ce
  have "getMaxCommits example_tree = number_of_nat (Max (set [2]))"
    and "getLastChangeEpoch example_tree = number_of_int (max 0 (Max (set [1700000000])))"
    and "getMinCommits example_tree = number_of_nat (Min (set [2]))"
    and "getFirstChangeEpoch example_tree = number_of_int (Min (set [1700000000]))"
    unfolding c ep by blast+
  then show ?thesis
    using empty by (simp add: number_of_nat_def number_of_int_def)
qed

text \<open>
  An empty directory beside a blob with two commits: the minimum over the blobs is 2,
  \<open>getMinCommits\<close> returns 0. A blob changed before 1970: the maximum over the blobs is
  negative, \<open>getLastChangeEpoch\<close> returns 0.
\<close>

theorem aggregate_reductions_counterexample:
  "commitCounts tree_with_empty_directory = [2]
   \<and> getMinCommits tree_with_empty_directory = Finite 0
   \<and> changeEpochs blob_before_epoch = [- 86400]
   \<and> getLastChangeEpoch blob_before_epoch = Finite 0"
proof -
  have a: "commitCounts tree_with_empty_directory = [2]"
    by (simp add: commitCounts_def commitCount_def tree_with_empty_directory_def
        commits_length_def)
  have b: "getMinCommits tree_with_empty_directory = Finite 0"
    by (simp add: tree_with_empty_directory_def Math_min_def number_of_nat_def
        commits_length_def)
  have c: "changeEpochs blob_before_epoch = [- 86400]"
    by (simp add: changeEpochs_def changeEpoch_def blob_before_epoch_def)
  have d: "getLastChangeEpoch blob_before_epoch = Finite 0"
    by (simp add: blob_before_epoch_def Math_max_def number_of_int_def)
  show ?thesis using a b c d by (intro conjI)
qed

section \<open>Properties of the complexity aggregator\<close>













end
